theory Spec2Isabelle
  imports Complex_Main "HOL-Library.Word"
begin

section \<open>Data model of \<open>src/decoder/MseDecoder.ts\<close>\<close>

text \<open>
  A pushed frame is a \<open>Uint8Array\<close>.  Clock readings (\<open>Date.now()\<close>, milliseconds) and the
  renderer's frame counters are integers.  Buffered ranges are media times in seconds;
  they are only compared, truncated and passed on, never added or multiplied, so they
  are read as reals.
\<close>

type_synonym Frame = "8 word list"

text \<open>\<open>interface QualityStats\<close> (lines 6-10).\<close>

record QualityStats =
  timestamp :: int
  decodedFrames :: int
  droppedFrames :: int

text \<open>
  Modelled from the spec: the element type of the inherited array \<open>inputBytes\<close> is
  declared in the absent \<open>Decoder.ts\<close>; section 3 of the spec gives it as
  InputSample \<open>{timestamp, bytes}\<close>, and lines 105 and 110 read exactly these two fields.
\<close>

record InputSample =
  timestamp :: int
  bytes :: int

text \<open>
  The object assigned to \<open>momentumQualityStats\<close> (lines 118-124); the field names and
  their order are those of the object literal.
\<close>

record MomentumStats =
  decodedFrames :: int
  droppedFrames :: int
  inputBytes :: int
  inputFrames :: int
  timestamp :: int

text \<open>
  \<open>VideoSettings\<close> and \<open>Size\<close> are imported classes; the fields are those of the
  constructor call in lines 13-20.  Only \<open>maxFps\<close> is read by this class.
\<close>

record Size =
  width :: int
  height :: int

record VideoSettings =
  lockedVideoOrientation :: int
  bitrate :: int
  maxFps :: int
  iFrameInterval :: int
  bounds :: Size
  sendFrameMeta :: bool

definition preferredVideoSettings :: VideoSettings where
  "preferredVideoSettings =
     \<lparr>lockedVideoOrientation = - 1, bitrate = 8000000, maxFps = 60, iFrameInterval = 10,
      bounds = \<lparr>width = 720, height = 720\<rparr>, sendFrameMeta = False\<rparr>"

definition DEFAULT_FRAMES_PER_FRAGMENT :: int where
  "DEFAULT_FRAMES_PER_FRAGMENT = 1"

definition DEFAULT_FRAMES_PER_SECOND :: int where
  "DEFAULT_FRAMES_PER_SECOND = 60"

text \<open>
  The converter of package \<open>h264-converter\<close>, as far as this class sees it: the two
  numbers it was constructed with (line 62).  Calls on it are recorded as effects.
\<close>

record VideoConverter =
  fps :: int
  fpf :: int

text \<open>
  Modelled from the spec: \<open>Decoder.STATE\<close> of the absent \<open>Decoder.ts\<close>; section 1 of the
  spec names the states INIT, PLAYING, PAUSED and STOPPED.  The source compares with
  \<open>Decoder.STATE.PLAYING\<close> only.
\<close>

datatype DecoderState = INIT | PLAYING | PAUSED | STOPPED

text \<open>\<open>screenInfo\<close> is only tested for being set (line 147).\<close>

datatype ScreenInfo = ScreenInfo

text \<open>
  Every request this class sends to the video element, to the converter or to the console,
  in the order it is sent.
\<close>

datatype Effect =
    NewConverter int int
  | ConverterPlay
  | ConverterPause
  | AppendRawData Frame
  | SourceBufferRemove real real
  | Warn
  | AddSeekedListener
  | RemoveSeekedListener
  | SetCurrentTime real

text \<open>
  The fields this class inherits from \<open>Decoder\<close> and reads or writes (lines 105-118, 147,
  152, 172, 208), then the class itself (lines 37-41) with the log of its effects.
\<close>

record Decoder =
  state :: DecoderState
  screenInfo :: "ScreenInfo option"
  videoSettings :: "VideoSettings option"
  inputBytes :: "InputSample list"
  momentumQualityStats :: "MomentumStats option"

record MseDecoder = Decoder +
  converter :: "VideoConverter option"
  videoStats :: "QualityStats list"
  stalledCounter :: nat
  isSeeking :: bool
  fpf :: int
  effects :: "Effect list"

text \<open>
  What one call can read from the \<open>HTMLVideoElement\<close> \<open>this.tag\<close>:
  \<^item> \<open>mozDecodedFrames\<close>, \<open>webkitDecodedFrameCount\<close>: \<open>None\<close> when \<open>typeof\<close> gives
    \<open>'undefined'\<close>;
  \<^item> \<open>videoPlaybackQuality\<close>: \<open>None\<close> when \<open>tag.getVideoPlaybackQuality\<close> is not a function,
    otherwise what the call returns;
  \<^item> \<open>buffered\<close>: the \<open>TimeRanges\<close> as the list of its \<open>(start(i), end(i))\<close>.
  Removal and append requests are carried out by the browser after the call returns, so
  one reading of \<open>buffered\<close> serves the whole call.
\<close>

record PlaybackQuality =
  totalVideoFrames :: int
  droppedVideoFrames :: int

record Tag =
  mozDecodedFrames :: "int option"
  videoPlaybackQuality :: "PlaybackQuality option"
  webkitDecodedFrameCount :: "int option"
  webkitDroppedFrameCount :: int
  buffered :: "(real \<times> real) list"

text \<open>
  The surroundings of one call of \<open>pushFrame\<close>: the video element and the three readings
  of \<open>Date.now()\<close>, in the order they are taken: by the base class when it records the
  input sample, by \<open>getVideoPlaybackQuality\<close> (line 71) and by \<open>calculateMomentumStats\<close>
  (line 98).
\<close>

record Env =
  tag :: Tag
  now_input :: int
  now_sample :: int
  now_momentum :: int

text \<open>
  \<open>super.resetStats()\<close> (line 129) runs the method of the base class \<open>Decoder\<close>.
  \<open>Decoder.ts\<close> is not among the sources, so its body is a parameter: an arbitrary change
  of the inherited fields.  The fields declared \<open>private\<close> in \<open>MseDecoder\<close> are out of its
  reach, and it is taken not to call the methods that \<open>MseDecoder\<close> overrides.
\<close>

record Super =
  super_resetStats :: "Decoder \<Rightarrow> Decoder"

definition super :: "(Decoder \<Rightarrow> Decoder) \<Rightarrow> MseDecoder \<Rightarrow> MseDecoder" where
  "super m s =
     (let d = m (Decoder.truncate s)
      in s\<lparr>state := state d,
           screenInfo := screenInfo d,
           videoSettings := videoSettings d,
           Decoder.inputBytes := Decoder.inputBytes d,
           momentumQualityStats := momentumQualityStats d\<rparr>)"

definition emit :: "Effect \<Rightarrow> MseDecoder \<Rightarrow> MseDecoder" where
  "emit x s = s\<lparr>effects := effects s @ [x]\<rparr>"

section \<open>Quality sampler and momentum estimator\<close>

text \<open>\<open>getVideoPlaybackQuality\<close>, lines 65-90.\<close>

definition getVideoPlaybackQuality :: "Env \<Rightarrow> QualityStats option" where
  "getVideoPlaybackQuality e =
     (if mozDecodedFrames (tag e) \<noteq> None then None
      else
        let now = now_sample e in
        (case videoPlaybackQuality (tag e) of
           Some temp \<Rightarrow>
             Some \<lparr>QualityStats.timestamp = now,
                   decodedFrames = totalVideoFrames temp,
                   droppedFrames = droppedVideoFrames temp\<rparr>
         | None \<Rightarrow>
             (case webkitDecodedFrameCount (tag e) of
                Some n \<Rightarrow>
                  Some \<lparr>QualityStats.timestamp = now,
                        decodedFrames = n,
                        droppedFrames = webkitDroppedFrameCount (tag e)\<rparr>
              | None \<Rightarrow> None)))"

text \<open>The two \<open>while ... shift()\<close> loops of lines 102-107.\<close>

fun shiftVideoStats :: "int \<Rightarrow> QualityStats list \<Rightarrow> QualityStats list" where
  "shiftVideoStats oneSecondBefore [] = []"
| "shiftVideoStats oneSecondBefore (x # xs) =
     (if QualityStats.timestamp x < oneSecondBefore then shiftVideoStats oneSecondBefore xs
      else x # xs)"

fun shiftInputBytes :: "int \<Rightarrow> InputSample list \<Rightarrow> InputSample list" where
  "shiftInputBytes oneSecondBefore [] = []"
| "shiftInputBytes oneSecondBefore (x # xs) =
     (if InputSample.timestamp x < oneSecondBefore then shiftInputBytes oneSecondBefore xs
      else x # xs)"

text \<open>\<open>calculateMomentumStats\<close>, lines 92-126.\<close>

definition calculateMomentumStats :: "Env \<Rightarrow> MseDecoder \<Rightarrow> MseDecoder" where
  "calculateMomentumStats e s =
     (case getVideoPlaybackQuality e of
        None \<Rightarrow> s
      | Some stat \<Rightarrow>
          let timestamp = now_momentum e;
              oneSecondBefore = timestamp - 1000;
              vs = shiftVideoStats oneSecondBefore (videoStats s @ [stat]);
              ib = shiftInputBytes oneSecondBefore (Decoder.inputBytes s);
              inputBytes = foldl (\<lambda>acc item. acc + bytes item) 0 ib;
              inputFrames = int (length ib);
              s1 = s\<lparr>Decoder.inputBytes := ib, videoStats := vs\<rparr>
          in (case vs of
                [] \<Rightarrow> s1
              | oldest # _ \<Rightarrow>
                  s1\<lparr>momentumQualityStats :=
                       Some \<lparr>MomentumStats.decodedFrames =
                               QualityStats.decodedFrames stat - QualityStats.decodedFrames oldest,
                             droppedFrames =
                               QualityStats.droppedFrames stat - QualityStats.droppedFrames oldest,
                             inputBytes = inputBytes,
                             inputFrames = inputFrames,
                             timestamp = timestamp\<rparr>\<rparr>))"

text \<open>\<open>resetStats\<close>, lines 128-131.\<close>

definition resetStats :: "Super \<Rightarrow> MseDecoder \<Rightarrow> MseDecoder" where
  "resetStats hooks s = (super (super_resetStats hooks) s)\<lparr>videoStats := []\<rparr>"

section \<open>Frame push: buffer trim, stall detection and recovery\<close>

text \<open>
  Modelled from the spec: \<open>pushFrame\<close> of the absent base class \<open>Decoder\<close>.  Sections 2 and
  4.1 of the spec: every pushed frame appends an InputSample stamped "now" with the
  frame's size to the input window, then triggers the quality sampler and the momentum
  estimator, that is this class's \<open>calculateMomentumStats\<close>.
\<close>

definition super_pushFrame :: "Env \<Rightarrow> Frame \<Rightarrow> MseDecoder \<Rightarrow> MseDecoder" where
  "super_pushFrame e frame s =
     calculateMomentumStats e
       (s\<lparr>Decoder.inputBytes :=
            Decoder.inputBytes s @
              [\<lparr>InputSample.timestamp = now_input e, bytes = int (length frame)\<rparr>]\<rparr>)"

text \<open>
  \<open>x | 0\<close> of JavaScript on a finite number: truncate towards zero, keep the low 32 bits,
  read them as a signed integer.
\<close>

definition toInt32 :: "real \<Rightarrow> int" where
  "toInt32 x = sint (word_of_int (if x < 0 then \<lceil>x\<rceil> else \<lfloor>x\<rfloor>) :: 32 word)"

text \<open>
  Lines 191-205 of \<open>pushFrame\<close>.  The key-frame test \<open>Decoder.isIFrame\<close> is a static method
  of the absent base class and comes in as the parameter \<open>isIFrame\<close>.
\<close>

definition trimAndAppend :: "(Frame \<Rightarrow> bool) \<Rightarrow> Env \<Rightarrow> Frame \<Rightarrow> MseDecoder \<Rightarrow> MseDecoder" where
  "trimAndAppend isIFrame e frame s =
     (case converter s of
        None \<Rightarrow> s
      | Some c \<Rightarrow>
          let s1 =
            (if isIFrame frame then
               let (start, end) =
                     (case buffered (tag e) of
                        [] \<Rightarrow> (0, 0)
                      | r # _ \<Rightarrow> (fst r, real_of_int (toInt32 (snd r))))
               in if end \<noteq> 0 \<and> start < end then emit (SourceBufferRemove start end) s else s
             else s)
          in emit (AppendRawData frame) s1)"

text \<open>Lines 208-214 of \<open>pushFrame\<close>.\<close>

definition countStalled :: "MseDecoder \<Rightarrow> MseDecoder" where
  "countStalled s =
     (case momentumQualityStats s of
        None \<Rightarrow> s
      | Some m \<Rightarrow>
          if \<not> isSeeking s then
            if MomentumStats.decodedFrames m = 0 \<and> MomentumStats.inputFrames m > 0
            then s\<lparr>stalledCounter := stalledCounter s + 1\<rparr>
            else s\<lparr>stalledCounter := 0\<rparr>
          else s)"

text \<open>
  Lines 215-225 of \<open>pushFrame\<close>.  \<open>buffered.end(0)\<close> is only reached when
  \<open>buffered.length\<close> is not zero.
\<close>

definition jumpToEnd :: "Env \<Rightarrow> MseDecoder \<Rightarrow> MseDecoder" where
  "jumpToEnd e s =
     (case buffered (tag e) of
        [] \<Rightarrow> s
      | r # _ \<Rightarrow>
          if stalledCounter s > 5 then
            (emit (SetCurrentTime (snd r))
               (emit AddSeekedListener
                  ((emit Warn s)\<lparr>isSeeking := True\<rparr>)))\<lparr>stalledCounter := 0\<rparr>
          else s)"

text \<open>The listener \<open>onSeekEnd\<close> of lines 217-220, run when the element fires \<open>seeked\<close>.\<close>

definition onSeekEnd :: "MseDecoder \<Rightarrow> MseDecoder" where
  "onSeekEnd s = emit RemoveSeekedListener (s\<lparr>isSeeking := False\<rparr>)"

text \<open>\<open>pushFrame\<close>, lines 189-226.\<close>

definition pushFrame :: "(Frame \<Rightarrow> bool) \<Rightarrow> Env \<Rightarrow> Frame \<Rightarrow> MseDecoder \<Rightarrow> MseDecoder" where
  "pushFrame isIFrame e frame s =
     jumpToEnd e (countStalled (trimAndAppend isIFrame e frame (super_pushFrame e frame s)))"

text \<open>A sequence of pushes, each with its own surroundings.\<close>

fun pushFrames :: "(Frame \<Rightarrow> bool) \<Rightarrow> (Env \<times> Frame) list \<Rightarrow> MseDecoder \<Rightarrow> MseDecoder" where
  "pushFrames isIFrame [] s = s"
| "pushFrames isIFrame ((e, frame) # rest) s =
     pushFrames isIFrame rest (pushFrame isIFrame e frame s)"

section \<open>Observations on the effect log\<close>

primrec isSeek :: "Effect \<Rightarrow> bool" where
  "isSeek (NewConverter a b) = False"
| "isSeek ConverterPlay = False"
| "isSeek ConverterPause = False"
| "isSeek (AppendRawData f) = False"
| "isSeek (SourceBufferRemove a b) = False"
| "isSeek Warn = False"
| "isSeek AddSeekedListener = False"
| "isSeek RemoveSeekedListener = False"
| "isSeek (SetCurrentTime p) = True"

primrec isRemove :: "Effect \<Rightarrow> bool" where
  "isRemove (NewConverter a b) = False"
| "isRemove ConverterPlay = False"
| "isRemove ConverterPause = False"
| "isRemove (AppendRawData f) = False"
| "isRemove (SourceBufferRemove a b) = True"
| "isRemove Warn = False"
| "isRemove AddSeekedListener = False"
| "isRemove RemoveSeekedListener = False"
| "isRemove (SetCurrentTime p) = False"

text \<open>The forced seeks and the removal requests sent so far, oldest first.\<close>

definition seekRequests :: "MseDecoder \<Rightarrow> Effect list" where
  "seekRequests s = filter isSeek (effects s)"

definition removeRequests :: "MseDecoder \<Rightarrow> Effect list" where
  "removeRequests s = filter isRemove (effects s)"

text \<open>What a call has added to the log of the state it started from.\<close>

definition newEffects :: "MseDecoder \<Rightarrow> MseDecoder \<Rightarrow> Effect list" where
  "newEffects s s' = drop (length (effects s)) (effects s')"

text \<open>
  A stalled observation (line 209): the momentum statistics show no decoded frame while
  input frames arrived.
\<close>

definition stalled :: "MseDecoder \<Rightarrow> bool" where
  "stalled s =
     (case momentumQualityStats s of
        None \<Rightarrow> False
      | Some m \<Rightarrow> MomentumStats.decodedFrames m = 0 \<and> MomentumStats.inputFrames m > 0)"

text \<open>
  Every push of the sequence is a stalled observation: the statistics that the push
  recomputes, as the stall detector reads them, are stalled.
\<close>

fun stalledRun :: "(Frame \<Rightarrow> bool) \<Rightarrow> (Env \<times> Frame) list \<Rightarrow> MseDecoder \<Rightarrow> bool" where
  "stalledRun isIFrame [] s = True"
| "stalledRun isIFrame ((e, frame) # rest) s =
     (stalled (super_pushFrame e frame s) \<and>
      stalledRun isIFrame rest (pushFrame isIFrame e frame s))"

section \<open>Concrete inputs\<close>

text \<open>
  An instance of the base-class \<open>resetStats\<close>, used where a statement is evaluated on
  concrete inputs.  Modelled from the spec: section 6 has \<open>resetStats\<close> clear both sample
  windows; the input window is the inherited one.
\<close>

definition exampleHooks :: Super where
  "exampleHooks = \<lparr>super_resetStats = (\<lambda>d. d\<lparr>Decoder.inputBytes := []\<rparr>)\<rparr>"

text \<open>
  An instance of the key-frame test: the NAL unit type, the low five bits of the byte
  after a four-byte start code, is 5 (coded slice of an IDR picture).
\<close>

definition exampleIsIFrame :: "Frame \<Rightarrow> bool" where
  "exampleIsIFrame frame = (4 < length frame \<and> and (frame ! 4) 31 = 5)"

definition keyFrame :: Frame where
  "keyFrame = [0, 0, 0, 1, 101, 136]"

definition deltaFrame :: Frame where
  "deltaFrame = [0, 0, 0, 1, 65, 154]"

text \<open>
  A video element that offers \<open>getVideoPlaybackQuality\<close>, has decoded and dropped no frame
  so far, and reports the given buffered ranges; and the surroundings of a call made at
  time \<open>t\<close> during which the clock does not advance.
\<close>

definition exampleTag :: "(real \<times> real) list \<Rightarrow> Tag" where
  "exampleTag ranges =
     \<lparr>mozDecodedFrames = None,
      videoPlaybackQuality = Some \<lparr>totalVideoFrames = 0, droppedVideoFrames = 0\<rparr>,
      webkitDecodedFrameCount = None,
      webkitDroppedFrameCount = 0,
      buffered = ranges\<rparr>"

definition exampleEnv :: "int \<Rightarrow> (real \<times> real) list \<Rightarrow> Env" where
  "exampleEnv t ranges =
     \<lparr>tag = exampleTag ranges, now_input = t, now_sample = t, now_momentum = t\<rparr>"

text \<open>A Firefox-style element: \<open>mozDecodedFrames\<close> is defined, so no counters are read.\<close>

definition envNoCounters :: Env where
  "envNoCounters = (exampleEnv 0 [(0, 1)])\<lparr>tag := (exampleTag [(0, 1)])\<lparr>mozDecodedFrames := Some 0\<rparr>\<rparr>"

text \<open>
  A call during which the clock jumps: the sampler reads 0, the recomputation reads 2000.
\<close>

definition envClockJump :: Env where
  "envClockJump = (exampleEnv 0 [(0, 1)])\<lparr>now_momentum := 2000\<rparr>"

text \<open>
  A playing decoder right after its converter was created: empty windows, no statistics
  yet, counter 0, no seek in flight.
\<close>

definition exampleDecoder :: MseDecoder where
  "exampleDecoder =
     \<lparr>state = PLAYING,
      screenInfo = Some ScreenInfo,
      videoSettings = Some preferredVideoSettings,
      inputBytes = [],
      momentumQualityStats = None,
      converter = Some \<lparr>fps = 60, fpf = 1\<rparr>,
      videoStats = [],
      stalledCounter = 0,
      isSeeking = False,
      fpf = 1,
      effects = []\<rparr>"

text \<open>
  Pushes of one frame every 100 ms while the renderer's counters stay at 0: five of them,
  and a sixth.
\<close>

definition fivePushes :: "(real \<times> real) list \<Rightarrow> (Env \<times> Frame) list" where
  "fivePushes ranges =
     [(exampleEnv 0 ranges, deltaFrame), (exampleEnv 100 ranges, deltaFrame),
      (exampleEnv 200 ranges, deltaFrame), (exampleEnv 300 ranges, deltaFrame),
      (exampleEnv 400 ranges, deltaFrame)]"

definition sixthPush :: "(real \<times> real) list \<Rightarrow> Env \<times> Frame" where
  "sixthPush ranges = (exampleEnv 500 ranges, deltaFrame)"

definition laterPushes :: "(real \<times> real) list \<Rightarrow> (Env \<times> Frame) list" where
  "laterPushes ranges =
     [(exampleEnv 600 ranges, deltaFrame), (exampleEnv 700 ranges, deltaFrame),
      (exampleEnv 800 ranges, deltaFrame), (exampleEnv 900 ranges, deltaFrame),
      (exampleEnv 1000 ranges, deltaFrame), (exampleEnv 1100 ranges, deltaFrame),
      (exampleEnv 1200 ranges, deltaFrame)]"

section \<open>Fields that a step leaves alone\<close>

lemma super_private [simp]:
  "converter (super m s) = converter s"
  "videoStats (super m s) = videoStats s"
  "stalledCounter (super m s) = stalledCounter s"
  "isSeeking (super m s) = isSeeking s"
  "MseDecoder.fpf (super m s) = MseDecoder.fpf s"
  "effects (super m s) = effects s"
  by (simp_all add: super_def Let_def)

lemma calculateMomentumStats_private [simp]:
  "converter (calculateMomentumStats e s) = converter s"
  "stalledCounter (calculateMomentumStats e s) = stalledCounter s"
  "isSeeking (calculateMomentumStats e s) = isSeeking s"
  "effects (calculateMomentumStats e s) = effects s"
  by (simp_all add: calculateMomentumStats_def Let_def split: option.splits list.splits)

lemma super_pushFrame_private [simp]:
  "converter (super_pushFrame e frame s) = converter s"
  "stalledCounter (super_pushFrame e frame s) = stalledCounter s"
  "isSeeking (super_pushFrame e frame s) = isSeeking s"
  "effects (super_pushFrame e frame s) = effects s"
  by (simp_all add: super_pushFrame_def)

lemma trimAndAppend_keeps [simp]:
  "stalledCounter (trimAndAppend c e frame s) = stalledCounter s"
  "isSeeking (trimAndAppend c e frame s) = isSeeking s"
  "momentumQualityStats (trimAndAppend c e frame s) = momentumQualityStats s"
  "converter (trimAndAppend c e frame s) = converter s"
  by (simp_all add: trimAndAppend_def emit_def Let_def
        split: option.splits list.splits prod.splits)

lemma seekRequests_trimAndAppend [simp]:
  "seekRequests (trimAndAppend c e frame s) = seekRequests s"
  by (simp add: trimAndAppend_def seekRequests_def emit_def Let_def
        split: option.splits list.splits prod.splits)

lemma countStalled_keeps [simp]:
  "isSeeking (countStalled s) = isSeeking s"
  "effects (countStalled s) = effects s"
  "converter (countStalled s) = converter s"
  by (simp_all add: countStalled_def split: option.splits)

lemma stalled_trimAndAppend [simp]:
  "stalled (trimAndAppend c e frame s) = stalled s"
  by (simp add: stalled_def)

lemma seekRequests_super_pushFrame [simp]:
  "seekRequests (super_pushFrame e frame s) = seekRequests s"
  by (simp add: seekRequests_def)

lemma seekRequests_countStalled [simp]:
  "seekRequests (countStalled s) = seekRequests s"
  by (simp add: seekRequests_def)

section \<open>One push of the stall detector\<close>

lemma countStalled_counter:
  "stalledCounter (countStalled s) =
     (if momentumQualityStats s = None \<or> isSeeking s then stalledCounter s
      else if stalled s then stalledCounter s + 1 else 0)"
  by (simp add: countStalled_def stalled_def split: option.splits)

lemma stalled_has_stats: "stalled s \<Longrightarrow> momentumQualityStats s \<noteq> None"
  by (simp add: stalled_def split: option.splits)

lemma jumpToEnd_idle:
  "stalledCounter s \<le> 5 \<or> buffered (tag e) = [] \<Longrightarrow> jumpToEnd e s = s"
  by (auto simp add: jumpToEnd_def split: list.splits)

lemma jumpToEnd_fires:
  assumes "5 < stalledCounter s" and "buffered (tag e) = r # rs"
  shows "stalledCounter (jumpToEnd e s) = 0"
    and "isSeeking (jumpToEnd e s)"
    and "seekRequests (jumpToEnd e s) = seekRequests s @ [SetCurrentTime (snd r)]"
    and "effects (jumpToEnd e s) = effects s @ [Warn, AddSeekedListener, SetCurrentTime (snd r)]"
  using assms by (simp_all add: jumpToEnd_def emit_def seekRequests_def)

lemma pushFrame_counts:
  assumes "\<not> isSeeking s" and "stalled (super_pushFrame e frame s)"
    and "stalledCounter s < 5"
  shows "stalledCounter (pushFrame c e frame s) = stalledCounter s + 1"
    and "\<not> isSeeking (pushFrame c e frame s)"
    and "seekRequests (pushFrame c e frame s) = seekRequests s"
proof -
  let ?t = "countStalled (trimAndAppend c e frame (super_pushFrame e frame s))"
  have t: "stalledCounter ?t = stalledCounter s + 1"
    using assms stalled_has_stats [OF assms(2)] by (simp add: countStalled_counter)
  then have idle: "jumpToEnd e ?t = ?t"
    using assms(3) by (intro jumpToEnd_idle) simp
  show "stalledCounter (pushFrame c e frame s) = stalledCounter s + 1"
    using t idle by (simp add: pushFrame_def)
  show "\<not> isSeeking (pushFrame c e frame s)"
    using assms(1) idle by (simp add: pushFrame_def)
  show "seekRequests (pushFrame c e frame s) = seekRequests s"
    using idle by (simp add: pushFrame_def)
qed

lemma pushFrame_fires:
  assumes "\<not> isSeeking s" and "stalled (super_pushFrame e frame s)"
    and "5 \<le> stalledCounter s" and "buffered (tag e) = r # rs"
  shows "stalledCounter (pushFrame c e frame s) = 0"
    and "isSeeking (pushFrame c e frame s)"
    and "seekRequests (pushFrame c e frame s) = seekRequests s @ [SetCurrentTime (snd r)]"
proof -
  let ?t = "countStalled (trimAndAppend c e frame (super_pushFrame e frame s))"
  have t: "5 < stalledCounter ?t"
    using assms stalled_has_stats [OF assms(2)] by (auto simp add: countStalled_counter)
  show "stalledCounter (pushFrame c e frame s) = 0"
    using jumpToEnd_fires(1) [OF t assms(4)] by (simp add: pushFrame_def)
  show "isSeeking (pushFrame c e frame s)"
    using jumpToEnd_fires(2) [OF t assms(4)] by (simp add: pushFrame_def)
  show "seekRequests (pushFrame c e frame s) = seekRequests s @ [SetCurrentTime (snd r)]"
    using jumpToEnd_fires(3) [OF t assms(4)] by (simp add: pushFrame_def)
qed

lemma pushFrame_deferred:
  assumes "\<not> isSeeking s" and "stalled (super_pushFrame e frame s)"
    and "buffered (tag e) = []"
  shows "stalledCounter (pushFrame c e frame s) = stalledCounter s + 1"
    and "\<not> isSeeking (pushFrame c e frame s)"
    and "seekRequests (pushFrame c e frame s) = seekRequests s"
proof -
  let ?t = "countStalled (trimAndAppend c e frame (super_pushFrame e frame s))"
  have t: "stalledCounter ?t = stalledCounter s + 1"
    using assms stalled_has_stats [OF assms(2)] by (simp add: countStalled_counter)
  have idle: "jumpToEnd e ?t = ?t"
    using assms(3) by (intro jumpToEnd_idle) simp
  show "stalledCounter (pushFrame c e frame s) = stalledCounter s + 1"
    using t idle by (simp add: pushFrame_def)
  show "\<not> isSeeking (pushFrame c e frame s)"
    using assms(1) idle by (simp add: pushFrame_def)
  show "seekRequests (pushFrame c e frame s) = seekRequests s"
    using idle by (simp add: pushFrame_def)
qed

lemma pushFrame_in_flight:
  assumes "isSeeking s" and "stalledCounter s = 0"
  shows "isSeeking (pushFrame c e frame s)"
    and "stalledCounter (pushFrame c e frame s) = 0"
    and "seekRequests (pushFrame c e frame s) = seekRequests s"
proof -
  let ?t = "countStalled (trimAndAppend c e frame (super_pushFrame e frame s))"
  have t: "stalledCounter ?t = 0"
    using assms by (simp add: countStalled_counter)
  then have idle: "jumpToEnd e ?t = ?t"
    by (intro jumpToEnd_idle) simp
  show "isSeeking (pushFrame c e frame s)"
    using assms(1) idle by (simp add: pushFrame_def)
  show "stalledCounter (pushFrame c e frame s) = 0"
    using t idle by (simp add: pushFrame_def)
  show "seekRequests (pushFrame c e frame s) = seekRequests s"
    using idle by (simp add: pushFrame_def)
qed

lemma pushFrame_seek_sets_flag:
  assumes "seekRequests (pushFrame c e frame s) \<noteq> seekRequests s"
  shows "isSeeking (pushFrame c e frame s) \<and> stalledCounter (pushFrame c e frame s) = 0"
proof -
  let ?t = "countStalled (trimAndAppend c e frame (super_pushFrame e frame s))"
  have "jumpToEnd e ?t \<noteq> ?t"
    using assms by (auto simp add: pushFrame_def)
  then have "\<not> (stalledCounter ?t \<le> 5 \<or> buffered (tag e) = [])"
    using jumpToEnd_idle [of ?t e] by blast
  then obtain r rs where "buffered (tag e) = r # rs" and "5 < stalledCounter ?t"
    by (cases "buffered (tag e)") auto
  then show ?thesis
    using jumpToEnd_fires(1,2) [of ?t e r rs] by (simp add: pushFrame_def)
qed

section \<open>Sequences of pushes\<close>

lemma pushFrames_append:
  "pushFrames c (ps @ qs) s = pushFrames c qs (pushFrames c ps s)"
  by (induction ps arbitrary: s) auto

lemma stalledRun_append:
  "stalledRun c (ps @ qs) s \<longleftrightarrow> stalledRun c ps s \<and> stalledRun c qs (pushFrames c ps s)"
  by (induction ps arbitrary: s) auto

lemma pushFrames_counts:
  assumes "\<not> isSeeking s" and "stalledRun c ps s" and "stalledCounter s + length ps \<le> 5"
  shows "stalledCounter (pushFrames c ps s) = stalledCounter s + length ps \<and>
         \<not> isSeeking (pushFrames c ps s) \<and>
         seekRequests (pushFrames c ps s) = seekRequests s"
  using assms
proof (induction ps arbitrary: s)
  case Nil
  then show ?case by simp
next
  case (Cons p ps)
  obtain e frame where p: "p = (e, frame)" by (cases p)
  let ?s = "pushFrame c e frame s"
  from Cons.prems p have st: "stalled (super_pushFrame e frame s)"
    and run: "stalledRun c ps ?s" and lt: "stalledCounter s < 5"
    by auto
  note step = pushFrame_counts [OF Cons.prems(1) st lt, of c]
  have "stalledCounter ?s + length ps \<le> 5"
    using Cons.prems(3) step(1) by simp
  from Cons.IH [OF step(2) run this] step p show ?case by simp
qed

lemma pushFrames_in_flight:
  assumes "isSeeking s" and "stalledCounter s = 0"
  shows "isSeeking (pushFrames c ps s) \<and> stalledCounter (pushFrames c ps s) = 0 \<and>
         seekRequests (pushFrames c ps s) = seekRequests s"
  using assms
proof (induction ps arbitrary: s)
  case Nil
  then show ?case by simp
next
  case (Cons p ps)
  obtain e frame where p: "p = (e, frame)" by (cases p)
  note step = pushFrame_in_flight [OF Cons.prems, of c e frame]
  from Cons.IH [OF step(1) step(2)] step(3) p show ?case by simp
qed

section \<open>Buffer trim\<close>

lemma toInt32_floor:
  assumes "0 \<le> x" and "x < 2 ^ 31"
  shows "toInt32 x = \<lfloor>x\<rfloor>"
proof -
  have lo: "- (2 ^ 31) \<le> \<lfloor>x\<rfloor>"
    using assms(1) by (simp add: le_floor_iff)
  have hi: "\<lfloor>x\<rfloor> < 2 ^ 31"
    using assms(2) by (simp add: floor_less_iff)
  have "sint (word_of_int \<lfloor>x\<rfloor> :: 32 word) = \<lfloor>x\<rfloor>"
    using lo hi by (simp add: sint_sbintrunc' signed_take_bit_int_eq_self)
  then show ?thesis
    using assms(1) by (simp add: toInt32_def)
qed

lemma trimAndAppend_key_frame:
  assumes "converter s = Some conv" and "isIFrame frame"
    and "buffered (tag e) = (start, end) # rest"
    and "0 \<le> start" and "start < real_of_int \<lfloor>end\<rfloor>" and "end < 2 ^ 31"
  shows "effects (trimAndAppend isIFrame e frame s) =
           effects s @ [SourceBufferRemove start (real_of_int \<lfloor>end\<rfloor>), AppendRawData frame]"
proof -
  have "0 \<le> end" using assms(4,5) by (smt (verit) of_int_floor_le)
  then have t: "toInt32 end = \<lfloor>end\<rfloor>"
    using assms(6) by (rule toInt32_floor)
  have "\<lfloor>end\<rfloor> \<noteq> 0" using assms(4,5) by auto
  then show ?thesis
    using assms(1,2,3,5) t by (simp add: trimAndAppend_def emit_def)
qed

lemma trimAndAppend_other_frame:
  assumes "\<not> isIFrame frame"
  shows "removeRequests (trimAndAppend isIFrame e frame s) = removeRequests s"
  using assms by (simp add: trimAndAppend_def emit_def removeRequests_def split: option.splits)

lemma pushFrame_effects:
  "\<exists>js. effects (pushFrame c e frame s) =
          effects (trimAndAppend c e frame (super_pushFrame e frame s)) @ js \<and>
        filter isRemove js = []"
  by (cases "buffered (tag e)") (simp_all add: pushFrame_def jumpToEnd_def emit_def)

lemma removeRequests_super_pushFrame [simp]:
  "removeRequests (super_pushFrame e frame s) = removeRequests s"
  by (simp add: removeRequests_def)

section \<open>The two windows\<close>

lemma shiftVideoStats_filter:
  "sorted (map QualityStats.timestamp xs) \<Longrightarrow>
     shiftVideoStats bound xs = filter (\<lambda>q. bound \<le> QualityStats.timestamp q) xs"
proof (induction xs)
  case Nil
  then show ?case by simp
next
  case (Cons x xs)
  show ?case
  proof (cases "QualityStats.timestamp x < bound")
    case True
    with Cons show ?thesis by simp
  next
    case False
    with Cons.prems have "\<forall>q \<in> set xs. bound \<le> QualityStats.timestamp q"
      by auto
    then have "filter (\<lambda>q. bound \<le> QualityStats.timestamp q) xs = xs"
      by (simp add: filter_id_conv)
    with False show ?thesis by simp
  qed
qed

lemma shiftVideoStats_suffix:
  "sorted (map QualityStats.timestamp xs) \<Longrightarrow>
     xs = filter (\<lambda>q. QualityStats.timestamp q < bound) xs @ shiftVideoStats bound xs"
proof (induction xs)
  case Nil
  then show ?case by simp
next
  case (Cons x xs)
  show ?case
  proof (cases "QualityStats.timestamp x < bound")
    case True
    with Cons show ?thesis by simp
  next
    case False
    with Cons.prems have "\<forall>q \<in> set xs. \<not> QualityStats.timestamp q < bound"
      by auto
    then have "filter (\<lambda>q. QualityStats.timestamp q < bound) xs = []"
      by (simp add: filter_empty_conv)
    with False show ?thesis by simp
  qed
qed

lemma shiftInputBytes_filter:
  "sorted (map InputSample.timestamp xs) \<Longrightarrow>
     shiftInputBytes bound xs = filter (\<lambda>i. bound \<le> InputSample.timestamp i) xs"
proof (induction xs)
  case Nil
  then show ?case by simp
next
  case (Cons x xs)
  show ?case
  proof (cases "InputSample.timestamp x < bound")
    case True
    with Cons show ?thesis by simp
  next
    case False
    with Cons.prems have "\<forall>i \<in> set xs. bound \<le> InputSample.timestamp i"
      by auto
    then have "filter (\<lambda>i. bound \<le> InputSample.timestamp i) xs = xs"
      by (simp add: filter_id_conv)
    with False show ?thesis by simp
  qed
qed

lemma shiftInputBytes_suffix:
  "sorted (map InputSample.timestamp xs) \<Longrightarrow>
     xs = filter (\<lambda>i. InputSample.timestamp i < bound) xs @ shiftInputBytes bound xs"
proof (induction xs)
  case Nil
  then show ?case by simp
next
  case (Cons x xs)
  show ?case
  proof (cases "InputSample.timestamp x < bound")
    case True
    with Cons show ?thesis by simp
  next
    case False
    with Cons.prems have "\<forall>i \<in> set xs. \<not> InputSample.timestamp i < bound"
      by auto
    then have "filter (\<lambda>i. InputSample.timestamp i < bound) xs = []"
      by (simp add: filter_empty_conv)
    with False show ?thesis by simp
  qed
qed

lemma calculateMomentumStats_windows:
  assumes "getVideoPlaybackQuality e = Some stat"
  shows "videoStats (calculateMomentumStats e s) =
           shiftVideoStats (now_momentum e - 1000) (videoStats s @ [stat])"
    and "Decoder.inputBytes (calculateMomentumStats e s) =
           shiftInputBytes (now_momentum e - 1000) (Decoder.inputBytes s)"
  using assms by (simp_all add: calculateMomentumStats_def Let_def split: list.splits)


lemma foldl_bytes:
  "foldl (\<lambda>acc item. acc + bytes item) a xs = a + sum_list (map bytes xs)"
  by (induction xs arbitrary: a) auto



lemma resetStats_fields [simp]:
  "videoStats (resetStats hooks s) = []"
  "stalledCounter (resetStats hooks s) = stalledCounter s"
  "isSeeking (resetStats hooks s) = isSeeking s"
  "converter (resetStats hooks s) = converter s"
  "effects (resetStats hooks s) = effects s"
  by (simp_all add: resetStats_def)

lemma super_pushFrame_empty_window:
  assumes "getVideoPlaybackQuality e = Some stat"
    and "now_momentum e - 1000 \<le> QualityStats.timestamp stat"
    and "videoStats s = []"
  shows "videoStats (super_pushFrame e frame s) = [stat]"
    and "momentumQualityStats (super_pushFrame e frame s) =
           Some \<lparr>MomentumStats.decodedFrames = 0, droppedFrames = 0,
                 inputBytes = sum_list (map bytes (Decoder.inputBytes (super_pushFrame e frame s))),
                 inputFrames = int (length (Decoder.inputBytes (super_pushFrame e frame s))),
                 timestamp = now_momentum e\<rparr>"
  using assms by (simp_all add: super_pushFrame_def calculateMomentumStats_def Let_def foldl_bytes)

section \<open>Evaluation on concrete inputs\<close>

lemmas push_defs =
  pushFrame_def super_pushFrame_def calculateMomentumStats_def getVideoPlaybackQuality_def
  trimAndAppend_def countStalled_def jumpToEnd_def emit_def Let_def stalled_def
  seekRequests_def removeRequests_def newEffects_def toInt32_def

lemmas example_defs =
  exampleEnv_def exampleTag_def exampleDecoder_def deltaFrame_def keyFrame_def
  exampleIsIFrame_def fivePushes_def sixthPush_def laterPushes_def
  envNoCounters_def envClockJump_def exampleHooks_def preferredVideoSettings_def

lemma after_five_pushes:
  "videoStats (pushFrames exampleIsIFrame (fivePushes [(0, 1)]) exampleDecoder) =
     [\<lparr>QualityStats.timestamp = 0, decodedFrames = 0, droppedFrames = 0\<rparr>,
      \<lparr>QualityStats.timestamp = 100, decodedFrames = 0, droppedFrames = 0\<rparr>,
      \<lparr>QualityStats.timestamp = 200, decodedFrames = 0, droppedFrames = 0\<rparr>,
      \<lparr>QualityStats.timestamp = 300, decodedFrames = 0, droppedFrames = 0\<rparr>,
      \<lparr>QualityStats.timestamp = 400, decodedFrames = 0, droppedFrames = 0\<rparr>]"
  "Decoder.inputBytes (pushFrames exampleIsIFrame (fivePushes [(0, 1)]) exampleDecoder) =
     [\<lparr>InputSample.timestamp = 0, bytes = 6\<rparr>,
      \<lparr>InputSample.timestamp = 100, bytes = 6\<rparr>,
      \<lparr>InputSample.timestamp = 200, bytes = 6\<rparr>,
      \<lparr>InputSample.timestamp = 300, bytes = 6\<rparr>,
      \<lparr>InputSample.timestamp = 400, bytes = 6\<rparr>]"
  "stalledCounter (pushFrames exampleIsIFrame (fivePushes [(0, 1)]) exampleDecoder) = 5"
  by (simp_all add: push_defs example_defs)

lemma sample_at_1250:
  "getVideoPlaybackQuality (exampleEnv 1250 [(0, 1)]) =
     Some \<lparr>QualityStats.timestamp = 1250, decodedFrames = 0, droppedFrames = 0\<rparr>"
  by (simp add: getVideoPlaybackQuality_def example_defs)



section \<open>Stall detection and recovery\<close>

text \<open>
  C1, as stated, fails.  Five consecutive stalled observations from a counter of 0 in the
  normal state, with a buffered range reported on every push, bring the counter to 5; line
  215 asks for more than 5, so no seek is requested.
\<close>

theorem five_stalled_pushes_counterexample:
  "\<not> isSeeking exampleDecoder \<and>
   length (fivePushes [(0, 1)]) = 5 \<and>
   stalledRun exampleIsIFrame (fivePushes [(0, 1)]) exampleDecoder \<and>
   seekRequests (pushFrames exampleIsIFrame (fivePushes [(0, 1)]) exampleDecoder) = [] \<and>
   stalledCounter (pushFrames exampleIsIFrame (fivePushes [(0, 1)]) exampleDecoder) = 5"
  by (simp add: push_defs example_defs)

text \<open>
  C1, amended.  In the normal state (no seek in flight), let the pushes \<open>ps\<close> followed by
  one more push all be stalled observations (\<open>inputFrames > 0\<close>, \<open>decodedFrames = 0\<close>),
  where \<open>ps\<close> brings the counter to 5: five pushes when the run starts from 0.  If the
  video element reports a buffered range on the last push, then no seek is requested
  during \<open>ps\<close>, the last push requests exactly one forced seek, and after it the stall
  counter is 0 and the seek is in flight.  When exactly one range is buffered, the seek
  goes to its end.
\<close>

theorem stall_recovery_on_sixth:
  assumes "\<not> isSeeking s"
    and "stalledCounter s + length ps = 5"
    and "stalledRun c (ps @ [(e, frame)]) s"
    and "buffered (tag e) \<noteq> []"
  shows "seekRequests (pushFrames c ps s) = seekRequests s \<and>
         length (seekRequests (pushFrames c (ps @ [(e, frame)]) s)) =
           length (seekRequests s) + 1 \<and>
         stalledCounter (pushFrames c (ps @ [(e, frame)]) s) = 0 \<and>
         isSeeking (pushFrames c (ps @ [(e, frame)]) s) \<and>
         (\<forall>a b. buffered (tag e) = [(a, b)] \<longrightarrow>
            seekRequests (pushFrames c (ps @ [(e, frame)]) s) =
              seekRequests s @ [SetCurrentTime b])"
proof -
  let ?s5 = "pushFrames c ps s"
  from assms(3) have run: "stalledRun c ps s" and st: "stalled (super_pushFrame e frame ?s5)"
    by (simp_all add: stalledRun_append)
  from assms(2) have "stalledCounter s + length ps \<le> 5" by simp
  from pushFrames_counts [OF assms(1) run this] assms(2)
  have five: "stalledCounter ?s5 = 5" "\<not> isSeeking ?s5" "seekRequests ?s5 = seekRequests s"
    by simp_all
  obtain r rs where r: "buffered (tag e) = r # rs"
    using assms(4) by (cases "buffered (tag e)") auto
  have "5 \<le> stalledCounter ?s5" using five(1) by simp
  note fire = pushFrame_fires [OF five(2) st this r, of c]
  have last: "pushFrames c (ps @ [(e, frame)]) s = pushFrame c e frame ?s5"
    by (simp add: pushFrames_append)
  show ?thesis
    using five(3) fire r by (auto simp add: last)
qed

theorem stall_recovery_on_sixth_witness:
  "\<not> isSeeking exampleDecoder \<and>
   stalledCounter exampleDecoder + length (fivePushes [(0, 1)]) = 5 \<and>
   stalledRun exampleIsIFrame (fivePushes [(0, 1)] @ [(exampleEnv 500 [(0, 1)], deltaFrame)])
     exampleDecoder \<and>
   buffered (tag (exampleEnv 500 [(0, 1)])) \<noteq> [] \<and>
   seekRequests (pushFrames exampleIsIFrame (fivePushes [(0, 1)]) exampleDecoder) = [] \<and>
   seekRequests
     (pushFrames exampleIsIFrame (fivePushes [(0, 1)] @ [(exampleEnv 500 [(0, 1)], deltaFrame)])
        exampleDecoder) = [SetCurrentTime 1] \<and>
   stalledCounter
     (pushFrames exampleIsIFrame (fivePushes [(0, 1)] @ [(exampleEnv 500 [(0, 1)], deltaFrame)])
        exampleDecoder) = 0"
proof -
  have h1: "\<not> isSeeking exampleDecoder"
    by (simp add: example_defs)
  have h2: "stalledCounter exampleDecoder + length (fivePushes [(0, 1)]) = 5"
    by (simp add: example_defs)
  have h3: "stalledRun exampleIsIFrame
              (fivePushes [(0, 1)] @ [(exampleEnv 500 [(0, 1)], deltaFrame)]) exampleDecoder"
    by (simp add: push_defs example_defs)
  have h4: "buffered (tag (exampleEnv 500 [(0, 1)])) \<noteq> []"
    by (simp add: example_defs)
  have h5: "buffered (tag (exampleEnv 500 [(0, 1)])) = [(0, 1)]"
    by (simp add: example_defs)
  have h6: "seekRequests exampleDecoder = []"
    by (simp add: seekRequests_def example_defs)
  show ?thesis
    using h1 h2 h3 h4 h5 h6 stall_recovery_on_sixth [OF h1 h2 h3 h4]
    by simp
qed

text \<open>
  C2, as stated, fails.  Six consecutive stalled pushes from counter 0 while the video
  element reports no buffered range: the sixth push requests no seek and leaves the
  counter at 6 (the second condition of line 215).
\<close>

theorem sixth_push_without_buffered_counterexample:
  "stalledCounter exampleDecoder = 0 \<and>
   \<not> isSeeking exampleDecoder \<and>
   stalledRun exampleIsIFrame (fivePushes [] @ [sixthPush []]) exampleDecoder \<and>
   seekRequests (pushFrames exampleIsIFrame (fivePushes [] @ [sixthPush []]) exampleDecoder) = [] \<and>
   stalledCounter (pushFrames exampleIsIFrame (fivePushes [] @ [sixthPush []]) exampleDecoder) = 6"
  by (simp add: push_defs example_defs)

text \<open>
  C2, amended.  Starting with the stall counter at 0 and no seek in flight, three
  consecutive stalled pushes raise the counter to 3 and request no seek; two more request
  none either; the sixth consecutive stalled push, if the video element then reports at
  least one buffered range, requests a recovery seek and resets the counter to 0 on that
  same push.
\<close>

theorem stalled_scenario:
  assumes "stalledCounter s = 0" and "\<not> isSeeking s"
    and "length ps = 3" and "length qs = 2"
    and "stalledRun c (ps @ qs @ [(e, frame)]) s"
    and "buffered (tag e) \<noteq> []"
  shows "stalledCounter (pushFrames c ps s) = 3 \<and>
         seekRequests (pushFrames c ps s) = seekRequests s \<and>
         seekRequests (pushFrames c (ps @ qs) s) = seekRequests s \<and>
         length (seekRequests (pushFrames c (ps @ qs @ [(e, frame)]) s)) =
           length (seekRequests s) + 1 \<and>
         stalledCounter (pushFrames c (ps @ qs @ [(e, frame)]) s) = 0"
proof -
  let ?s3 = "pushFrames c ps s" and ?s5 = "pushFrames c (ps @ qs) s"
  from assms(5) have run3: "stalledRun c ps s" and run5: "stalledRun c (ps @ qs) s"
    and st: "stalled (super_pushFrame e frame ?s5)"
    by (simp_all add: stalledRun_append pushFrames_append)
  have "stalledCounter s + length ps \<le> 5" using assms(1,3) by simp
  note three = pushFrames_counts [OF assms(2) run3 this]
  have "stalledCounter s + length (ps @ qs) \<le> 5" using assms(1,3,4) by simp
  note five = pushFrames_counts [OF assms(2) run5 this]
  obtain r rs where r: "buffered (tag e) = r # rs"
    using assms(6) by (cases "buffered (tag e)") auto
  have "5 \<le> stalledCounter ?s5" using five assms(1,3,4) by simp
  from five have "\<not> isSeeking ?s5" by simp
  note fire = pushFrame_fires [OF this st \<open>5 \<le> stalledCounter ?s5\<close> r, of c]
  have last: "pushFrames c (ps @ qs @ [(e, frame)]) s = pushFrame c e frame ?s5"
    by (simp add: pushFrames_append)
  show ?thesis
    using three five fire assms(1,3) by (simp add: last)
qed

theorem stalled_scenario_witness:
  "stalledCounter exampleDecoder = 0 \<and>
   \<not> isSeeking exampleDecoder \<and>
   length (take 3 (fivePushes [(0, 1)])) = 3 \<and>
   length (drop 3 (fivePushes [(0, 1)])) = 2 \<and>
   stalledRun exampleIsIFrame
     (take 3 (fivePushes [(0, 1)]) @ drop 3 (fivePushes [(0, 1)]) @
        [(exampleEnv 500 [(0, 1)], deltaFrame)]) exampleDecoder \<and>
   buffered (tag (exampleEnv 500 [(0, 1)])) \<noteq> [] \<and>
   stalledCounter (pushFrames exampleIsIFrame (take 3 (fivePushes [(0, 1)])) exampleDecoder) = 3 \<and>
   seekRequests (pushFrames exampleIsIFrame (take 3 (fivePushes [(0, 1)])) exampleDecoder) = [] \<and>
   length (seekRequests
     (pushFrames exampleIsIFrame
        (take 3 (fivePushes [(0, 1)]) @ drop 3 (fivePushes [(0, 1)]) @
           [(exampleEnv 500 [(0, 1)], deltaFrame)]) exampleDecoder)) = 1 \<and>
   stalledCounter
     (pushFrames exampleIsIFrame
        (take 3 (fivePushes [(0, 1)]) @ drop 3 (fivePushes [(0, 1)]) @
           [(exampleEnv 500 [(0, 1)], deltaFrame)]) exampleDecoder) = 0"
proof -
  have h1: "stalledCounter exampleDecoder = 0"
    by (simp add: example_defs)
  have h2: "\<not> isSeeking exampleDecoder"
    by (simp add: example_defs)
  have h3: "length (take 3 (fivePushes [(0, 1)])) = 3"
    by (simp add: example_defs)
  have h4: "length (drop 3 (fivePushes [(0, 1)])) = 2"
    by (simp add: example_defs)
  have h5: "stalledRun exampleIsIFrame
     (take 3 (fivePushes [(0, 1)]) @ drop 3 (fivePushes [(0, 1)]) @
        [(exampleEnv 500 [(0, 1)], deltaFrame)]) exampleDecoder"
    by (simp add: push_defs example_defs)
  have h6: "buffered (tag (exampleEnv 500 [(0, 1)])) \<noteq> []"
    by (simp add: example_defs)
  have h7: "seekRequests exampleDecoder = []"
    by (simp add: seekRequests_def example_defs)
  show ?thesis
    using h1 h2 h3 h4 h5 h6 h7 stalled_scenario [OF h1 h2 h3 h4 h5 h6]
    by simp
qed

text \<open>
  C3, evaluated where it fails.  With the two buffered ranges \<open>[0, 1)\<close> and \<open>[2, 3)\<close>, the
  sixth consecutive stalled push sets the playback position to 1, the end of the first
  range (\<open>buffered.end(0)\<close>, line 223), while the last range ends at 3.
\<close>

theorem jump_to_first_range_end:
  "stalledRun exampleIsIFrame
     (fivePushes [(0, 1), (2, 3)] @ [sixthPush [(0, 1), (2, 3)]]) exampleDecoder \<and>
   buffered (tag (fst (sixthPush [(0, 1), (2, 3)]))) = [(0, 1), (2, 3)] \<and>
   seekRequests
     (pushFrames exampleIsIFrame
        (fivePushes [(0, 1), (2, 3)] @ [sixthPush [(0, 1), (2, 3)]]) exampleDecoder) =
     [SetCurrentTime 1]"
  by (simp add: push_defs example_defs)

text \<open>
  C4.  Let a call of \<open>pushFrame\<close> request a recovery seek.  Then it leaves the
  seek-in-flight flag set, and whatever pushes follow, and whatever they observe, none of
  them requests another seek and the flag stays set.  Only the listener \<open>onSeekEnd\<close>, run by
  the seek-completed signal, clears the flag.
\<close>

theorem no_seek_while_in_flight:
  assumes "seekRequests (pushFrame c e frame s) \<noteq> seekRequests s"
  shows "isSeeking (pushFrame c e frame s) \<and>
         seekRequests (pushFrames c ps (pushFrame c e frame s)) =
           seekRequests (pushFrame c e frame s) \<and>
         isSeeking (pushFrames c ps (pushFrame c e frame s)) \<and>
         \<not> isSeeking (onSeekEnd (pushFrames c ps (pushFrame c e frame s)))"
proof -
  from pushFrame_seek_sets_flag [OF assms]
  have flag: "isSeeking (pushFrame c e frame s)" "stalledCounter (pushFrame c e frame s) = 0"
    by simp_all
  from pushFrames_in_flight [OF flag, of c ps] flag(1) show ?thesis
    by (simp add: onSeekEnd_def emit_def)
qed

theorem no_seek_while_in_flight_witness:
  "seekRequests
     (pushFrame exampleIsIFrame (exampleEnv 500 [(0, 1)]) deltaFrame
        (pushFrames exampleIsIFrame (fivePushes [(0, 1)]) exampleDecoder)) \<noteq>
   seekRequests (pushFrames exampleIsIFrame (fivePushes [(0, 1)]) exampleDecoder) \<and>
   stalledRun exampleIsIFrame (laterPushes [(0, 1)])
     (pushFrame exampleIsIFrame (exampleEnv 500 [(0, 1)]) deltaFrame
        (pushFrames exampleIsIFrame (fivePushes [(0, 1)]) exampleDecoder)) \<and>
   seekRequests
     (pushFrames exampleIsIFrame (laterPushes [(0, 1)])
        (pushFrame exampleIsIFrame (exampleEnv 500 [(0, 1)]) deltaFrame
           (pushFrames exampleIsIFrame (fivePushes [(0, 1)]) exampleDecoder))) =
   [SetCurrentTime 1]"
proof -
  let ?s5 = "pushFrames exampleIsIFrame (fivePushes [(0, 1)]) exampleDecoder"
  let ?s6 = "pushFrame exampleIsIFrame (exampleEnv 500 [(0, 1)]) deltaFrame ?s5"
  have s5: "seekRequests ?s5 = []"
    by (simp add: push_defs example_defs)
  have s6: "seekRequests ?s6 = [SetCurrentTime 1]"
    by (simp add: push_defs example_defs)
  have h: "seekRequests ?s6 \<noteq> seekRequests ?s5"
    by (simp add: s5 s6)
  have run: "stalledRun exampleIsIFrame (laterPushes [(0, 1)]) ?s6"
    by (simp add: push_defs example_defs)
  show ?thesis
    using h run s6 no_seek_while_in_flight [OF h, of "laterPushes [(0, 1)]"]
    by simp
qed

section \<open>Buffer trim on key frames\<close>

text \<open>
  C5, as stated, fails.  A key frame pushed while no converter exists (after \<open>pause\<close> or
  \<open>stop\<close>) issues no removal request and no append, although the first buffered range
  \<open>[2, 5)\<close> has \<open>start < floor(end)\<close>: the whole block is guarded by line 191.  And
  \<open>end | 0\<close> is a 32-bit truncation, not \<open>floor\<close>: for the range \<open>[2, 2147483649)\<close> it is
  negative, and no removal is requested either.
\<close>

theorem key_frame_trim_counterexample:
  "exampleIsIFrame keyFrame \<and>
   buffered (tag (exampleEnv 0 [(2, 5)])) = [(2, 5)] \<and>
   (2 :: real) < real_of_int \<lfloor>5 :: real\<rfloor> \<and>
   removeRequests
     (pushFrame exampleIsIFrame (exampleEnv 0 [(2, 5)]) keyFrame
        (exampleDecoder\<lparr>converter := None\<rparr>)) = [] \<and>
   buffered (tag (exampleEnv 0 [(2, 2147483649)])) = [(2, 2147483649)] \<and>
   (2 :: real) < real_of_int \<lfloor>2147483649 :: real\<rfloor> \<and>
   removeRequests
     (pushFrame exampleIsIFrame (exampleEnv 0 [(2, 2147483649)]) keyFrame exampleDecoder) = []"
  by (simp add: push_defs example_defs)

text \<open>
  C5, amended.  For every call of \<open>pushFrame\<close> with a key frame while a converter exists,
  when the first buffered range \<open>[start, end)\<close> of the video element has
  \<open>0 \<le> start < floor(end)\<close> and \<open>end < 2^31\<close>, the first two requests of the call are
  the removal of exactly \<open>[start, floor(end)]\<close> and then the append of the frame, and the
  call issues no other removal.  For every frame that is not a key frame, the call issues
  no removal request.  In particular a key frame pushed with buffered range \<open>[2.0, 5.0)\<close>
  issues the removal of exactly \<open>[2.0, 5]\<close> before the append.
\<close>

theorem key_frame_trim:
  "(converter s = Some conv \<and> isIFrame frame \<and> buffered (tag e) = (start, end) # rest \<and>
    0 \<le> start \<and> start < real_of_int \<lfloor>end\<rfloor> \<and> end < 2 ^ 31 \<longrightarrow>
      take 2 (newEffects s (pushFrame isIFrame e frame s)) =
        [SourceBufferRemove start (real_of_int \<lfloor>end\<rfloor>), AppendRawData frame] \<and>
      removeRequests (pushFrame isIFrame e frame s) =
        removeRequests s @ [SourceBufferRemove start (real_of_int \<lfloor>end\<rfloor>)]) \<and>
   (\<not> isIFrame frame \<longrightarrow>
      removeRequests (pushFrame isIFrame e frame s) = removeRequests s)"
proof (intro conjI impI)
  obtain js where js: "effects (pushFrame isIFrame e frame s) =
      effects (trimAndAppend isIFrame e frame (super_pushFrame e frame s)) @ js"
    and none: "filter isRemove js = []"
    using pushFrame_effects by blast
  {
    assume a: "converter s = Some conv \<and> isIFrame frame \<and>
      buffered (tag e) = (start, end) # rest \<and>
      0 \<le> start \<and> start < real_of_int \<lfloor>end\<rfloor> \<and> end < 2 ^ 31"
    then have "converter (super_pushFrame e frame s) = Some conv" by simp
    from trimAndAppend_key_frame [OF this, of isIFrame frame e start "end" rest] a
    have eff: "effects (pushFrame isIFrame e frame s) =
        effects s @ [SourceBufferRemove start (real_of_int \<lfloor>end\<rfloor>), AppendRawData frame] @ js"
      by (simp add: js)
    show "take 2 (newEffects s (pushFrame isIFrame e frame s)) =
        [SourceBufferRemove start (real_of_int \<lfloor>end\<rfloor>), AppendRawData frame]"
      by (simp add: newEffects_def eff)
    show "removeRequests (pushFrame isIFrame e frame s) =
        removeRequests s @ [SourceBufferRemove start (real_of_int \<lfloor>end\<rfloor>)]"
      by (simp add: removeRequests_def eff none)
  }
  {
    assume "\<not> isIFrame frame"
    then have "removeRequests (trimAndAppend isIFrame e frame (super_pushFrame e frame s)) =
        removeRequests (super_pushFrame e frame s)"
      by (rule trimAndAppend_other_frame)
    then show "removeRequests (pushFrame isIFrame e frame s) = removeRequests s"
      by (simp add: removeRequests_def js none)
  }
qed

theorem key_frame_trim_witness:
  "exampleIsIFrame keyFrame \<and> \<not> exampleIsIFrame deltaFrame \<and>
   newEffects exampleDecoder (pushFrame exampleIsIFrame (exampleEnv 0 [(2, 5)]) keyFrame exampleDecoder) =
     [SourceBufferRemove 2 5, AppendRawData keyFrame] \<and>
   removeRequests (pushFrame exampleIsIFrame (exampleEnv 0 [(2, 5)]) keyFrame exampleDecoder) =
     [SourceBufferRemove 2 5] \<and>
   removeRequests (pushFrame exampleIsIFrame (exampleEnv 0 [(2, 5)]) deltaFrame exampleDecoder) = []"
proof -
  have k: "exampleIsIFrame keyFrame" and d: "\<not> exampleIsIFrame deltaFrame"
    by (simp_all add: example_defs)
  have c: "converter exampleDecoder = Some \<lparr>fps = 60, fpf = 1\<rparr>"
    and b: "buffered (tag (exampleEnv 0 [(2, 5)])) = (2, 5) # []"
    and r: "removeRequests exampleDecoder = []"
    by (simp_all add: example_defs removeRequests_def)
  have n: "length (newEffects exampleDecoder
      (pushFrame exampleIsIFrame (exampleEnv 0 [(2, 5)]) keyFrame exampleDecoder)) = 2"
    by (simp add: push_defs example_defs)
  show ?thesis
    using k d c b r n
      key_frame_trim [of exampleDecoder "\<lparr>fps = 60, fpf = 1\<rparr>" exampleIsIFrame keyFrame
        "exampleEnv 0 [(2, 5)]" 2 5 "[]"]
      key_frame_trim [of exampleDecoder "\<lparr>fps = 60, fpf = 1\<rparr>" exampleIsIFrame deltaFrame
        "exampleEnv 0 [(2, 5)]" 2 5 "[]"]
    by simp
qed

section \<open>Window eviction and momentum statistics\<close>

text \<open>
  C6.  Let a momentum recomputation reach its eviction step (the sampler returned a
  sample \<open>stat\<close>), with the samples of both windows, the new one included, in
  non-decreasing timestamp order.  After the eviction, every sample retained in either
  window has a timestamp of at least \<open>now - 1000\<close>, where \<open>now\<close> is the clock reading of the
  recomputation (line 98), and each window is what it was before with exactly the samples
  strictly older than \<open>now - 1000\<close> removed from its front.
\<close>

theorem eviction_keeps_last_second:
  assumes "getVideoPlaybackQuality e = Some stat"
    and "sorted (map QualityStats.timestamp (videoStats s @ [stat]))"
    and "sorted (map InputSample.timestamp (Decoder.inputBytes s))"
  shows "(\<forall>q \<in> set (videoStats (calculateMomentumStats e s)).
            now_momentum e - 1000 \<le> QualityStats.timestamp q) \<and>
         (\<forall>i \<in> set (Decoder.inputBytes (calculateMomentumStats e s)).
            now_momentum e - 1000 \<le> InputSample.timestamp i) \<and>
         videoStats s @ [stat] =
           filter (\<lambda>q. QualityStats.timestamp q < now_momentum e - 1000) (videoStats s @ [stat]) @
           videoStats (calculateMomentumStats e s) \<and>
         Decoder.inputBytes s =
           filter (\<lambda>i. InputSample.timestamp i < now_momentum e - 1000) (Decoder.inputBytes s) @
           Decoder.inputBytes (calculateMomentumStats e s)"
proof -
  note w = calculateMomentumStats_windows [OF assms(1), of s]
  have "\<forall>q \<in> set (videoStats (calculateMomentumStats e s)).
          now_momentum e - 1000 \<le> QualityStats.timestamp q"
    unfolding w(1) shiftVideoStats_filter [OF assms(2)] by simp
  moreover have "\<forall>i \<in> set (Decoder.inputBytes (calculateMomentumStats e s)).
          now_momentum e - 1000 \<le> InputSample.timestamp i"
    unfolding w(2) shiftInputBytes_filter [OF assms(3)] by simp
  moreover have "videoStats s @ [stat] =
      filter (\<lambda>q. QualityStats.timestamp q < now_momentum e - 1000) (videoStats s @ [stat]) @
      videoStats (calculateMomentumStats e s)"
    unfolding w(1) by (rule shiftVideoStats_suffix [OF assms(2)])
  moreover have "Decoder.inputBytes s =
      filter (\<lambda>i. InputSample.timestamp i < now_momentum e - 1000) (Decoder.inputBytes s) @
      Decoder.inputBytes (calculateMomentumStats e s)"
    unfolding w(2) by (rule shiftInputBytes_suffix [OF assms(3)])
  ultimately show ?thesis by blast
qed

theorem eviction_keeps_last_second_witness:
  "getVideoPlaybackQuality (exampleEnv 1250 [(0, 1)]) =
     Some \<lparr>QualityStats.timestamp = 1250, decodedFrames = 0, droppedFrames = 0\<rparr> \<and>
   sorted (map QualityStats.timestamp
     (videoStats (pushFrames exampleIsIFrame (fivePushes [(0, 1)]) exampleDecoder) @
      [\<lparr>QualityStats.timestamp = 1250, decodedFrames = 0, droppedFrames = 0\<rparr>])) \<and>
   sorted (map InputSample.timestamp
     (Decoder.inputBytes (pushFrames exampleIsIFrame (fivePushes [(0, 1)]) exampleDecoder))) \<and>
   videoStats (pushFrames exampleIsIFrame (fivePushes [(0, 1)]) exampleDecoder) @
     [\<lparr>QualityStats.timestamp = 1250, decodedFrames = 0, droppedFrames = 0\<rparr>] =
     filter (\<lambda>q. QualityStats.timestamp q < now_momentum (exampleEnv 1250 [(0, 1)]) - 1000)
       (videoStats (pushFrames exampleIsIFrame (fivePushes [(0, 1)]) exampleDecoder) @
        [\<lparr>QualityStats.timestamp = 1250, decodedFrames = 0, droppedFrames = 0\<rparr>]) @
     videoStats (calculateMomentumStats (exampleEnv 1250 [(0, 1)])
       (pushFrames exampleIsIFrame (fivePushes [(0, 1)]) exampleDecoder)) \<and>
   Decoder.inputBytes (pushFrames exampleIsIFrame (fivePushes [(0, 1)]) exampleDecoder) =
     filter (\<lambda>i. InputSample.timestamp i < now_momentum (exampleEnv 1250 [(0, 1)]) - 1000)
       (Decoder.inputBytes (pushFrames exampleIsIFrame (fivePushes [(0, 1)]) exampleDecoder)) @
     Decoder.inputBytes (calculateMomentumStats (exampleEnv 1250 [(0, 1)])
       (pushFrames exampleIsIFrame (fivePushes [(0, 1)]) exampleDecoder)) \<and>
   map QualityStats.timestamp
     (videoStats (calculateMomentumStats (exampleEnv 1250 [(0, 1)])
        (pushFrames exampleIsIFrame (fivePushes [(0, 1)]) exampleDecoder))) = [300, 400, 1250] \<and>
   map InputSample.timestamp
     (Decoder.inputBytes (calculateMomentumStats (exampleEnv 1250 [(0, 1)])
        (pushFrames exampleIsIFrame (fivePushes [(0, 1)]) exampleDecoder))) = [300, 400]"
proof -
  let ?s = "pushFrames exampleIsIFrame (fivePushes [(0, 1)]) exampleDecoder"
  let ?stat = "\<lparr>QualityStats.timestamp = 1250, decodedFrames = 0, droppedFrames = 0\<rparr>"
  have h2: "sorted (map QualityStats.timestamp (videoStats ?s @ [?stat]))"
    by (simp add: after_five_pushes)
  have h3: "sorted (map InputSample.timestamp (Decoder.inputBytes ?s))"
    by (simp add: after_five_pushes)
  have n: "now_momentum (exampleEnv 1250 [(0, 1)]) = 1250"
    by (simp add: exampleEnv_def)
  have v: "map QualityStats.timestamp
      (videoStats (calculateMomentumStats (exampleEnv 1250 [(0, 1)]) ?s)) = [300, 400, 1250]"
    by (simp add: calculateMomentumStats_windows [OF sample_at_1250] after_five_pushes n)
  have i: "map InputSample.timestamp
      (Decoder.inputBytes (calculateMomentumStats (exampleEnv 1250 [(0, 1)]) ?s)) = [300, 400]"
    by (simp add: calculateMomentumStats_windows [OF sample_at_1250] after_five_pushes n)
  show ?thesis
    using sample_at_1250 h2 h3 v i eviction_keeps_last_second [OF sample_at_1250 h2 h3]
    by blast
qed




section \<open>Quality counters not available\<close>

text \<open>
  C8.  When the quality sampler returns \<open>null\<close> (the backend exposes no playback-quality
  counters), a momentum recomputation returns at once: the whole state, and with it
  \<open>momentumQualityStats\<close>, is what it was before.  The function has no other outcome, so
  no error is raised.
\<close>

theorem calculateMomentumStats_unavailable:
  assumes "getVideoPlaybackQuality e = None"
  shows "calculateMomentumStats e s = s \<and>
         momentumQualityStats (calculateMomentumStats e s) = momentumQualityStats s"
  using assms by (simp add: calculateMomentumStats_def)

theorem calculateMomentumStats_unavailable_witness:
  "getVideoPlaybackQuality envNoCounters = None \<and>
   calculateMomentumStats envNoCounters exampleDecoder = exampleDecoder \<and>
   momentumQualityStats (calculateMomentumStats envNoCounters exampleDecoder) = None"
proof -
  have h: "getVideoPlaybackQuality envNoCounters = None"
    by (simp add: getVideoPlaybackQuality_def envNoCounters_def exampleEnv_def exampleTag_def)
  show ?thesis
    using h calculateMomentumStats_unavailable [OF h, of exampleDecoder]
    by (simp add: exampleDecoder_def)
qed

section \<open>The first observation after a reset\<close>

text \<open>
  C9, as stated, fails.  While a recovery seek is in flight, the stall detector ignores
  every observation (line 208): the first push after \<open>resetStats\<close> shows
  \<open>decodedFrames = 0\<close> with \<open>inputFrames = 1\<close>, and the counter stays at 0.  And when the
  clock jumps between the sampler's reading and the recomputation's, the new sample is
  evicted at once and no statistics are computed at all.
\<close>

theorem first_observation_after_reset_counterexample:
  "videoStats (resetStats exampleHooks (exampleDecoder\<lparr>isSeeking := True\<rparr>)) = [] \<and>
   momentumQualityStats
     (super_pushFrame (exampleEnv 0 [(0, 1)]) deltaFrame
        (resetStats exampleHooks (exampleDecoder\<lparr>isSeeking := True\<rparr>))) =
     Some \<lparr>MomentumStats.decodedFrames = 0, droppedFrames = 0, inputBytes = 6,
           inputFrames = 1, timestamp = 0\<rparr> \<and>
   stalledCounter (resetStats exampleHooks (exampleDecoder\<lparr>isSeeking := True\<rparr>)) = 0 \<and>
   stalledCounter
     (countStalled
        (trimAndAppend exampleIsIFrame (exampleEnv 0 [(0, 1)]) deltaFrame
           (super_pushFrame (exampleEnv 0 [(0, 1)]) deltaFrame
              (resetStats exampleHooks (exampleDecoder\<lparr>isSeeking := True\<rparr>))))) = 0 \<and>
   stalledCounter
     (pushFrame exampleIsIFrame (exampleEnv 0 [(0, 1)]) deltaFrame
        (resetStats exampleHooks (exampleDecoder\<lparr>isSeeking := True\<rparr>))) = 0 \<and>
   getVideoPlaybackQuality envClockJump =
     Some \<lparr>QualityStats.timestamp = 0, decodedFrames = 0, droppedFrames = 0\<rparr> \<and>
   momentumQualityStats
     (super_pushFrame envClockJump deltaFrame (resetStats exampleHooks exampleDecoder)) = None"
  by (simp add: push_defs example_defs resetStats_def super_def Decoder.truncate_def)

text \<open>
  C9, amended.  After \<open>resetStats\<close> has emptied the quality window, let the next push find
  the counters available and its sample not older than \<open>now - 1000\<close>.  Then the window
  holds that sample alone, which is differenced with itself: the recomputed statistics
  have \<open>decodedFrames = 0\<close> and \<open>droppedFrames = 0\<close>.  Consequently, if \<open>inputFrames > 0\<close>
  and no recovery seek is in flight, this first observation is counted as stalled: the
  stall detector increments the counter on that push (and the recovery check of the same
  push resets it to 0 when it has thereby passed 5 and a range is buffered).
\<close>

theorem first_observation_after_reset:
  assumes "getVideoPlaybackQuality e = Some stat"
    and "now_momentum e - 1000 \<le> QualityStats.timestamp stat"
  shows "videoStats (resetStats hooks s) = [] \<and>
         videoStats (super_pushFrame e frame (resetStats hooks s)) = [stat] \<and>
         (\<exists>m. momentumQualityStats (super_pushFrame e frame (resetStats hooks s)) = Some m \<and>
              MomentumStats.decodedFrames m = 0 \<and>
              MomentumStats.droppedFrames m = 0 \<and>
              (0 < MomentumStats.inputFrames m \<and> \<not> isSeeking s \<longrightarrow>
                 stalledCounter
                   (countStalled
                      (trimAndAppend c e frame (super_pushFrame e frame (resetStats hooks s)))) =
                   stalledCounter s + 1 \<and>
                 stalledCounter (pushFrame c e frame (resetStats hooks s)) =
                   (if 5 < stalledCounter s + 1 \<and> buffered (tag e) \<noteq> [] then 0
                    else stalledCounter s + 1)))"
proof -
  let ?r = "resetStats hooks s"
  let ?p = "super_pushFrame e frame ?r"
  let ?t = "countStalled (trimAndAppend c e frame ?p)"
  have empty: "videoStats ?r = []" by simp
  note w = super_pushFrame_empty_window [OF assms empty, of frame]
  let ?m = "\<lparr>MomentumStats.decodedFrames = 0, droppedFrames = 0,
             inputBytes = sum_list (map bytes (Decoder.inputBytes ?p)),
             inputFrames = int (length (Decoder.inputBytes ?p)),
             timestamp = now_momentum e\<rparr>"
  have counted: "stalledCounter ?t = stalledCounter s + 1"
    if "0 < MomentumStats.inputFrames ?m" and "\<not> isSeeking s"
    using that w(2) by (simp add: countStalled_counter stalled_def)
  have final: "stalledCounter (pushFrame c e frame ?r) =
      (if 5 < stalledCounter s + 1 \<and> buffered (tag e) \<noteq> [] then 0 else stalledCounter s + 1)"
    if "0 < MomentumStats.inputFrames ?m" and "\<not> isSeeking s"
  proof (cases "5 < stalledCounter s + 1 \<and> buffered (tag e) \<noteq> []")
    case True
    then obtain r rs where r: "buffered (tag e) = r # rs"
      by (cases "buffered (tag e)") auto
    from True counted [OF that] have "5 < stalledCounter ?t" by simp
    from jumpToEnd_fires(1) [OF this r] True show ?thesis
      by (simp add: pushFrame_def)
  next
    case False
    with counted [OF that] have "stalledCounter ?t \<le> 5 \<or> buffered (tag e) = []"
      by auto
    from jumpToEnd_idle [OF this] False counted [OF that] show ?thesis
      by (simp add: pushFrame_def)
  qed
  show ?thesis
    using w counted final by (intro conjI exI [of _ ?m]) simp_all
qed

theorem first_observation_after_reset_witness:
  "getVideoPlaybackQuality (exampleEnv 1250 [(0, 1)]) =
     Some \<lparr>QualityStats.timestamp = 1250, decodedFrames = 0, droppedFrames = 0\<rparr> \<and>
   now_momentum (exampleEnv 1250 [(0, 1)]) - 1000 \<le> 1250 \<and>
   \<not> isSeeking (pushFrames exampleIsIFrame (fivePushes [(0, 1)]) exampleDecoder) \<and>
   momentumQualityStats
     (super_pushFrame (exampleEnv 1250 [(0, 1)]) deltaFrame
        (resetStats exampleHooks
           (pushFrames exampleIsIFrame (fivePushes [(0, 1)]) exampleDecoder))) =
     Some \<lparr>MomentumStats.decodedFrames = 0, droppedFrames = 0, inputBytes = 6,
           inputFrames = 1, timestamp = 1250\<rparr> \<and>
   stalledCounter
     (pushFrame exampleIsIFrame (exampleEnv 1250 [(0, 1)]) deltaFrame
        (resetStats exampleHooks
           (pushFrames exampleIsIFrame (fivePushes [(0, 1)]) exampleDecoder))) = 0 \<and>
   stalledCounter
     (countStalled
        (trimAndAppend exampleIsIFrame (exampleEnv 1250 [(0, 1)]) deltaFrame
           (super_pushFrame (exampleEnv 1250 [(0, 1)]) deltaFrame
              (resetStats exampleHooks
                 (pushFrames exampleIsIFrame (fivePushes [(0, 1)]) exampleDecoder))))) = 6"
proof -
  let ?stat = "\<lparr>QualityStats.timestamp = 1250, decodedFrames = 0, droppedFrames = 0\<rparr>"
  let ?s = "pushFrames exampleIsIFrame (fivePushes [(0, 1)]) exampleDecoder"
  have h2: "now_momentum (exampleEnv 1250 [(0, 1)]) - 1000 \<le> QualityStats.timestamp ?stat"
    by (simp add: example_defs)
  have n: "\<not> isSeeking ?s"
    by (simp add: push_defs example_defs)
  have m: "momentumQualityStats
     (super_pushFrame (exampleEnv 1250 [(0, 1)]) deltaFrame (resetStats exampleHooks ?s)) =
     Some \<lparr>MomentumStats.decodedFrames = 0, droppedFrames = 0, inputBytes = 6,
           inputFrames = 1, timestamp = 1250\<rparr>"
    by (simp add: push_defs example_defs resetStats_def super_def Decoder.truncate_def)
  have b: "buffered (tag (exampleEnv 1250 [(0, 1)])) \<noteq> []"
    by (simp add: example_defs)
  show ?thesis
    using sample_at_1250 h2 n m b after_five_pushes(3)
      first_observation_after_reset [OF sample_at_1250 h2,
        of exampleHooks ?s deltaFrame exampleIsIFrame]
    by simp
qed

end
